theory Spec2Isabelle
  imports Complex_Main "HOL-Library.Log_Nat"
begin

section \<open>The rotating-logo script\<close>

text \<open>
  \<^verbatim>\<open>create_rotating_logo.py\<close> is one linear script: it opens a logo, converts it to
  RGBA when it is in another mode, rotates it \<open>num_frames\<close> times and saves the rotated
  copies as one animated GIF. The imaging library (Pillow) is not part of the repository.
  It enters the model as a record of functions, \<open>pil\<close>, one field per library routine the
  script calls; what a property needs to know about a routine is a hypothesis of its
  theorem, stated for the very call the script makes.
\<close>

subsection \<open>Images, files and the library interface\<close>

type_synonym bytes = "nat list"
type_synonym path = string

text \<open>The file system the script sees: the contents of the file at each path.\<close>

type_synonym fs = "path \<rightharpoonup> bytes"

text \<open>
  An image value: its mode string (\<^verbatim>\<open>logo.mode\<close>), its size and its pixels, row by row,
  each pixel the list of its band values. Two images are pixel-identical when they are
  equal as records.
\<close>

record image =
  mode :: string
  width :: nat
  height :: nat
  pixels :: "nat list list"

datatype resample = NEAREST | LANCZOS | BILINEAR | BICUBIC | BOX | HAMMING

text \<open>The keyword arguments of \<^verbatim>\<open>save\<close> that the script passes.\<close>

record save_params =
  save_all :: bool
  append_images :: "image list"
  duration :: nat
  loop :: nat
  optimize :: bool

text \<open>
  What the format encoder did with the file it was given: it wrote the whole file, or it
  failed after writing some bytes.
\<close>

datatype written = Written bytes | Failed bytes

text \<open>
  The library routines: \<open>decode\<close> reads an image out of a file's bytes (\<open>None\<close> when
  they are no image), \<open>Image_convert im m\<close> is \<^verbatim>\<open>im.convert(m)\<close>,
  \<open>Image_rotate im a r e\<close> is \<^verbatim>\<open>im.rotate(a, resample=r, expand=e)\<close>, and
  \<open>save_handler im p ps\<close> is the encoder that \<^verbatim>\<open>im.save(p, **ps)\<close> runs. All of them
  return new values; none changes an image it is given.
\<close>

record pil =
  decode :: "bytes \<Rightarrow> image option"
  Image_convert :: "image \<Rightarrow> string \<Rightarrow> image"
  Image_rotate :: "image \<Rightarrow> rat \<Rightarrow> resample \<Rightarrow> bool \<Rightarrow> image"
  save_handler :: "image \<Rightarrow> path \<Rightarrow> save_params \<Rightarrow> written"

datatype error = FileNotFoundError | UnidentifiedImageError | IndexError | EncoderError

text \<open>
  \<^verbatim>\<open>Image.open(p)\<close>: the file must exist and hold an image. Pillow reads the pixel data
  lazily, at the first use of the image; the model decodes at once, so every read or
  decode failure is raised here.
\<close>

definition Image_open :: "pil \<Rightarrow> fs \<Rightarrow> path \<Rightarrow> error + image" where
  "Image_open lib files p =
     (case files p of
        None \<Rightarrow> Inl FileNotFoundError
      | Some b \<Rightarrow>
          (case decode lib b of
             None \<Rightarrow> Inl UnidentifiedImageError
           | Some im \<Rightarrow> Inr im))"

text \<open>
  The frames a multi-frame save hands to the format's writer: the image itself, followed
  by \<^verbatim>\<open>append_images\<close> when \<^verbatim>\<open>save_all\<close> is set. They are the writer's input, not yet
  what it writes.
\<close>

definition saved_frames :: "image \<Rightarrow> save_params \<Rightarrow> image list" where
  "saved_frames im ps = (if save_all ps then im # append_images ps else [im])"

text \<open>
  What an animated GIF shows when it is read back: its frames in order, each with the
  time it is displayed, and its loop count.
\<close>

record animation =
  shown :: "(image \<times> nat) list"
  loops :: nat

text \<open>
  What Pillow's GIF writer lays down for the frames it is handed. It takes them in
  order; a frame that is identical to the frame written last is not written again, and
  its duration is added to that frame's.
\<close>

fun merge_identical :: "(image \<times> nat) list \<Rightarrow> (image \<times> nat) list" where
  "merge_identical [] = []"
| "merge_identical [x] = [x]"
| "merge_identical ((f, d) # (g, e) # rest) =
     (if f = g then merge_identical ((f, d + e) # rest)
      else (f, d) # merge_identical ((g, e) # rest))"

text \<open>
  The writer compares and writes the frames in the form the format stores, a palette
  image; \<open>stored\<close> is that conversion. Every frame handed over carries the duration of
  the call, and the file carries its loop count.
\<close>

definition gif_written :: "(image \<Rightarrow> image) \<Rightarrow> image list \<Rightarrow> save_params \<Rightarrow> animation" where
  "gif_written stored fr ps =
     \<lparr>shown = merge_identical (map (\<lambda>f. (stored f, duration ps)) fr), loops = loop ps\<rparr>"

text \<open>
  \<^verbatim>\<open>im.save(p, **ps)\<close>: the file at \<open>p\<close> is opened for writing, which truncates it, and
  the encoder writes into it. When the encoder fails, a file that did not exist before
  is removed again and one that did keeps the bytes written so far.
\<close>

definition Image_save :: "pil \<Rightarrow> image \<Rightarrow> path \<Rightarrow> save_params \<Rightarrow> fs \<Rightarrow> fs \<times> error option" where
  "Image_save lib im p ps files =
     (case save_handler lib im p ps of
        Written b \<Rightarrow> (files(p \<mapsto> b), None)
      | Failed b \<Rightarrow> ((if files p = None then files else files(p \<mapsto> b)), Some EncoderError))"

subsection \<open>The script\<close>

definition input_path :: path where
  "input_path = ''/data/users/liuzhou/online/OpenPrism/static/logo.png''"

definition output_path :: path where
  "output_path = ''/data/users/liuzhou/online/OpenPrism/static/logo-rotating.gif''"

definition num_frames :: nat where
  "num_frames = 36"

text \<open>Lines 8 and 9: convert to RGBA unless the logo is in that mode already.\<close>

definition normalize :: "pil \<Rightarrow> image \<Rightarrow> image" where
  "normalize lib logo =
     (if mode logo \<noteq> ''RGBA'' then Image_convert lib logo ''RGBA'' else logo)"

text \<open>
  Python's floats are IEEE 754 doubles. A finite double is modelled by the rational it
  stands for, and an operation by the exact result rounded to the nearest double, ties
  to the even significand: 53 significant bits, and a last place no finer than
  \<open>2 ^ - 1074\<close> (the subnormal range). The two zeros are one value, and there are no
  infinities: nothing the script computes for a frame count below \<open>2 ^ 1023\<close> overflows.
\<close>

definition pow2 :: "int \<Rightarrow> rat" where
  "pow2 e = (if 0 \<le> e then 2 ^ nat e else 1 / 2 ^ nat (- e))"

text \<open>The exponent \<open>e\<close> with \<open>2 ^ e \<le> x < 2 ^ (e + 1)\<close>, for a positive \<open>x\<close>.\<close>

definition floor_log2 :: "rat \<Rightarrow> int" where
  "floor_log2 x =
     (let (p, q) = quotient_of x; d = bitlen p - bitlen q
      in if pow2 d \<le> x then d else d - 1)"

definition round_half_even :: "rat \<Rightarrow> int" where
  "round_half_even x =
     (let f = \<lfloor>x\<rfloor>; r = x - of_int f
      in if r < 1 / 2 then f
         else if 1 / 2 < r then f + 1
         else if even f then f else f + 1)"

definition binary64 :: "rat \<Rightarrow> rat" where
  "binary64 x =
     (if x = 0 then 0
      else let q = max (floor_log2 \<bar>x\<bar> - 52) (- 1074)
           in of_int (round_half_even (x / pow2 q)) * pow2 q)"

text \<open>
  Line 16, \<^verbatim>\<open>angle = i * (360 / num_frames)\<close>, for a frame count \<open>n\<close>. The quotient of the
  two integers is rounded to a double; \<open>i\<close> is converted to a double; their product is
  rounded to a double. The division is inside the loop body, so it is never evaluated
  for \<open>n = 0\<close>.
\<close>

definition angle :: "nat \<Rightarrow> nat \<Rightarrow> rat" where
  "angle n i = binary64 (binary64 (of_nat i) * binary64 (360 / of_nat n))"

text \<open>Lines 16 to 19, one pass of the loop body on the list built so far.\<close>

definition loop_body :: "pil \<Rightarrow> image \<Rightarrow> nat \<Rightarrow> image list \<Rightarrow> nat \<Rightarrow> image list" where
  "loop_body lib logo n frames i =
     (let rotated = Image_rotate lib logo (- angle n i) BICUBIC False
      in frames @ [rotated])"

text \<open>Lines 12 to 19: the loop over \<^verbatim>\<open>range(num_frames)\<close>, from the empty list.\<close>

definition generate_frames :: "pil \<Rightarrow> image \<Rightarrow> nat \<Rightarrow> image list" where
  "generate_frames lib logo n = foldl (loop_body lib logo n) [] [0..<n]"

text \<open>
  Lines 23 to 30. The keyword arguments of the call are \<open>save_kwargs\<close>, with
  \<^verbatim>\<open>frames[1:]\<close> as \<open>drop 1 frames\<close>. Python evaluates \<^verbatim>\<open>frames[0]\<close> before the
  arguments and before the call, so an empty list raises IndexError with nothing
  written.
\<close>

definition save_kwargs :: "image list \<Rightarrow> save_params" where
  "save_kwargs frames =
     \<lparr>save_all = True, append_images = drop 1 frames,
      duration = 50, loop = 0, optimize = True\<rparr>"

definition encode :: "pil \<Rightarrow> image list \<Rightarrow> fs \<Rightarrow> fs \<times> error option" where
  "encode lib frames files =
     (case frames of
        [] \<Rightarrow> (files, Some IndexError)
      | first # _ \<Rightarrow> Image_save lib first output_path (save_kwargs frames) files)"

text \<open>Line 32: the line printed on success, as UTF-8 bytes.\<close>

definition message :: "path \<Rightarrow> string" where
  "message p =
     map char_of [230, 151, 139, 232, 189, 172, 229, 138, 168, 231, 148, 187,
                  229, 183, 178, 229, 136, 155, 229, 187, 186 :: nat] @ '': '' @ p"

text \<open>
  The whole script for a frame count \<open>n\<close>: the file system it leaves, and the uncaught
  exception it ends with or the line it prints.
\<close>

definition animate :: "pil \<Rightarrow> nat \<Rightarrow> fs \<Rightarrow> fs \<times> (error + string)" where
  "animate lib n files =
     (case Image_open lib files input_path of
        Inl e \<Rightarrow> (files, Inl e)
      | Inr opened \<Rightarrow>
          (let logo = normalize lib opened;
               frames = generate_frames lib logo n
           in case encode lib frames files of
                (files', Some e) \<Rightarrow> (files', Inl e)
              | (files', None) \<Rightarrow> (files', Inr (message output_path))))"

definition main :: "pil \<Rightarrow> fs \<Rightarrow> fs \<times> (error + string)" where
  "main lib files = animate lib num_frames files"

subsection \<open>A small library instance\<close>

text \<open>
  An executable instance of the interface, on which the theorems below are exercised.
  Its image files are a width, a height and then one grey value or four band values per
  pixel. Conversion to RGBA repeats the grey value and adds an opaque alpha band. The
  pixels of its images lie on a ring, and a clockwise rotation by \<open>k\<close> times ten degrees
  moves them \<open>k\<close> places along it. Its animation files are length-prefixed lists, which
  \<open>toy_read_gif\<close> reads back; its writer merges identical frames as \<open>gif_written\<close> says,
  stores the frames as they are, and refuses frames of unequal size.
\<close>

fun chop4 :: "nat list \<Rightarrow> nat list list" where
  "chop4 (a # b # c # d # rest) = [a, b, c, d] # chop4 rest"
| "chop4 _ = []"

definition toy_decode :: "bytes \<Rightarrow> image option" where
  "toy_decode b =
     (case b of
        w # h # d \<Rightarrow>
          if length d = w * h
          then Some \<lparr>mode = ''L'', width = w, height = h, pixels = map (\<lambda>v. [v]) d\<rparr>
          else if length d = 4 * w * h
          then Some \<lparr>mode = ''RGBA'', width = w, height = h, pixels = chop4 d\<rparr>
          else None
      | _ \<Rightarrow> None)"

definition toy_convert :: "image \<Rightarrow> string \<Rightarrow> image" where
  "toy_convert im m =
     im\<lparr>mode := m, pixels := map (\<lambda>p. take 3 (p @ p @ p) @ [255]) (pixels im)\<rparr>"

definition toy_rotate :: "image \<Rightarrow> rat \<Rightarrow> resample \<Rightarrow> bool \<Rightarrow> image" where
  "toy_rotate im a r e = im\<lparr>pixels := rotate (nat \<lfloor>- a / 10\<rfloor>) (pixels im)\<rparr>"

definition put_list :: "nat list \<Rightarrow> bytes" where
  "put_list xs = length xs # xs"



definition image_bytes :: "image \<Rightarrow> bytes" where
  "image_bytes im =
     put_list (map of_char (mode im)) @ [width im, height im, length (pixels im)]
       @ concat (map put_list (pixels im))"



definition toy_gif_bytes :: "animation \<Rightarrow> bytes" where
  "toy_gif_bytes a =
     [loops a, length (shown a)] @ concat (map (\<lambda>(f, d). d # image_bytes f) (shown a))"


definition toy_save_handler :: "image \<Rightarrow> path \<Rightarrow> save_params \<Rightarrow> written" where
  "toy_save_handler im p ps =
     (let fr = saved_frames im ps
      in if list_all (\<lambda>f. width f = width im \<and> height f = height im) fr
         then Written (toy_gif_bytes (gif_written (\<lambda>f. f) fr ps))
         else Failed [])"

definition toy :: pil where
  "toy = \<lparr>decode = toy_decode, Image_convert = toy_convert,
          Image_rotate = toy_rotate, save_handler = toy_save_handler\<rparr>"

definition grey_logo :: image where
  "grey_logo = \<lparr>mode = ''L'', width = 2, height = 1, pixels = [[7], [9]]\<rparr>"

definition disk :: fs where
  "disk = [input_path \<mapsto> [2, 1, 7, 9], output_path \<mapsto> [0]]"

definition rgba_logo :: image where
  "rgba_logo = \<lparr>mode = ''RGBA'', width = 2, height = 1,
                pixels = [[7, 7, 7, 255], [9, 9, 9, 255]]\<rparr>"






text \<open>What a conversion of a grey image to RGBA keeps: the size and the grey values.\<close>

definition grey_content :: "image \<Rightarrow> nat \<times> nat \<times> nat list list" where
  "grey_content im = (width im, height im, map (take 1) (pixels im))"

section \<open>Auxiliary facts\<close>

subsection \<open>The frame loop\<close>

lemma foldl_loop_body:
  "foldl (loop_body lib logo n) acc xs =
     acc @ map (\<lambda>i. Image_rotate lib logo (- angle n i) BICUBIC False) xs"
  by (induction xs arbitrary: acc) (simp_all add: loop_body_def)

lemma generate_frames_map:
  "generate_frames lib logo n =
     map (\<lambda>i. Image_rotate lib logo (- angle n i) BICUBIC False) [0..<n]"
  by (simp add: generate_frames_def foldl_loop_body)

lemma length_generate_frames: "length (generate_frames lib logo n) = n"
  by (simp add: generate_frames_map)

lemma nth_generate_frames:
  "i < n \<Longrightarrow>
   generate_frames lib logo n ! i = Image_rotate lib logo (- angle n i) BICUBIC False"
  by (simp add: generate_frames_map)

lemma angle_zero: "angle n 0 = 0"
  by (simp add: angle_def binary64_def)

lemma angles_of_36: "list_all (\<lambda>i. angle 36 i = 10 * of_nat i) [0..<37]"
  by code_simp

lemma angle_36: "i \<le> 36 \<Longrightarrow> angle 36 i = 10 * of_nat i"
  using angles_of_36 unfolding list_all_iff by auto

lemma angle_7_3: "angle 7 3 = 2714222989709897 / 17592186044416"
  by code_simp

lemma angle_39_39: "angle 39 39 = 6333186975989759 / 17592186044416"
  by code_simp

subsection \<open>The error of rounding to a double\<close>

lemma pow2_powi: "pow2 e = 2 powi e"
  by (simp add: pow2_def power_int_def inverse_eq_divide power_one_over)

lemma pow2_pos: "0 < pow2 e"
  by (simp add: pow2_powi)

lemma pow2_add: "pow2 (a + b) = pow2 a * pow2 b"
  by (simp add: pow2_powi power_int_add)

lemma pow2_mono: "a \<le> b \<Longrightarrow> pow2 a \<le> pow2 b"
  by (simp add: pow2_powi power_int_increasing)

lemma pow2_of_int: "0 \<le> e \<Longrightarrow> pow2 e = of_int (2 ^ nat e)"
  by (simp add: pow2_def)

lemma pow2_52: "pow2 52 = 2 ^ 52"
  by (simp add: pow2_def)

lemma floor_log2_bounds:
  assumes "0 < x"
  shows "pow2 (floor_log2 x) \<le> x \<and> x < pow2 (floor_log2 x + 1)"
proof -
  obtain p q where pq: "quotient_of x = (p, q)"
    by (cases "quotient_of x")
  then have q: "0 < q" and x: "x = of_int p / of_int q"
    by (simp_all add: quotient_of_denom_pos quotient_of_div)
  with assms have p: "0 < p"
    by (simp add: zero_less_divide_iff)
  let ?a = "bitlen p" and ?b = "bitlen q"
  from bitlen_bounds [OF p] bitlen_bounds [OF q]
  have bp: "2 ^ nat (?a - 1) \<le> p" "p < 2 ^ nat ?a"
    and bq: "2 ^ nat (?b - 1) \<le> q" "q < 2 ^ nat ?b"
    by simp_all
  have a1: "1 \<le> ?a" and b1: "1 \<le> ?b"
    using p q by (simp_all add: bitlen_alt_def)
  have pa: "pow2 (?a - 1) \<le> of_int p" "of_int p < pow2 ?a"
    using bp a1 by (simp_all add: pow2_of_int)
  have qb: "pow2 (?b - 1) \<le> of_int q" "of_int q < pow2 ?b"
    using bq b1 by (simp_all add: pow2_of_int)
  have qpos: "(0 :: rat) < of_int q"
    using q by simp
  have up: "x < pow2 (?a - ?b + 1)"
  proof -
    have "of_int p * 1 < pow2 ?a * (of_int q / pow2 (?b - 1))"
      using pa(2) qb(1) pow2_pos [of "?b - 1"] pow2_pos [of ?a] p
      by (intro mult_less_le_imp_less) (simp_all add: pos_le_divide_eq)
    also have "\<dots> = pow2 (?a - ?b + 1) * of_int q"
      using pow2_add [of "?a - ?b + 1" "?b - 1"] pow2_pos [of "?b - 1"]
      by (simp add: field_simps)
    finally show ?thesis
      using qpos by (simp add: x pos_divide_less_eq)
  qed
  have low: "pow2 (?a - ?b - 1) \<le> x"
  proof -
    have "pow2 (?a - ?b - 1) * of_int q \<le> pow2 (?a - ?b - 1) * pow2 ?b"
      using qb(2) pow2_pos [of "?a - ?b - 1"] by simp
    also have "\<dots> = pow2 (?a - 1)"
      using pow2_add [of "?a - ?b - 1" ?b] by simp
    also have "\<dots> \<le> of_int p"
      by (rule pa(1))
    finally show ?thesis
      using qpos by (simp add: x pos_le_divide_eq)
  qed
  show ?thesis
    using up low by (auto simp: floor_log2_def pq Let_def not_le)
qed

lemma round_half_even_close: "\<bar>of_int (round_half_even y) - y\<bar> \<le> 1 / 2"
proof -
  have "of_int \<lfloor>y\<rfloor> \<le> y" "y < of_int \<lfloor>y\<rfloor> + 1"
    by linarith+
  then show ?thesis
    by (auto simp: round_half_even_def Let_def)
qed

lemma binary64_close:
  assumes "pow2 (- 1022) \<le> x"
  shows "\<bar>binary64 x - x\<bar> \<le> x / 2 ^ 53"
proof -
  from assms pow2_pos [of "- 1022"] have pos: "0 < x"
    by linarith
  let ?e = "floor_log2 x"
  from floor_log2_bounds [OF pos] have e: "pow2 ?e \<le> x" "x < pow2 (?e + 1)"
    by simp_all
  have "- 1022 \<le> ?e"
  proof (rule ccontr)
    assume "\<not> - 1022 \<le> ?e"
    then have "?e + 1 \<le> - 1022"
      by simp
    from pow2_mono [OF this] e(2) assms show False
      by linarith
  qed
  then have q: "max (?e - 52) (- 1074) = ?e - 52"
    by simp
  let ?q = "pow2 (?e - 52)"
  have qpos: "0 < ?q"
    by (rule pow2_pos)
  have b: "binary64 x = of_int (round_half_even (x / ?q)) * ?q"
    using pos by (simp add: binary64_def q Let_def)
  have "binary64 x - x = (of_int (round_half_even (x / ?q)) - x / ?q) * ?q"
    using qpos by (simp add: b left_diff_distrib)
  then have "\<bar>binary64 x - x\<bar> = \<bar>of_int (round_half_even (x / ?q)) - x / ?q\<bar> * \<bar>?q\<bar>"
    by (simp only: abs_mult)
  also have "\<dots> = \<bar>of_int (round_half_even (x / ?q)) - x / ?q\<bar> * ?q"
    using qpos by (simp only: abs_of_pos)
  also have "\<dots> \<le> 1 / 2 * ?q"
    using round_half_even_close [of "x / ?q"] qpos by (intro mult_right_mono) simp_all
  also have "\<dots> = pow2 ?e / 2 ^ 53"
    using pow2_add [of "?e - 52" 52] by (simp add: pow2_52)
  also have "\<dots> \<le> x / 2 ^ 53"
    using e(1) by (simp add: divide_right_mono)
  finally show ?thesis .
qed

lemma binary64_interval:
  assumes "pow2 (- 1022) \<le> x"
  shows "x * (1 - 1 / 2 ^ 53) \<le> binary64 x \<and> binary64 x \<le> x * (1 + 1 / 2 ^ 53)"
proof -
  have "x * (1 - 1 / 2 ^ 53) = x - x / 2 ^ 53" "x * (1 + 1 / 2 ^ 53) = x + x / 2 ^ 53"
    by (simp_all add: algebra_simps)
  with binary64_close [OF assms] show ?thesis
    by (simp only: abs_le_iff) linarith
qed

lemma pow2_small: "pow2 (- 1022) \<le> pow2 (- 1002)" "pow2 (- 1022) \<le> pow2 (- 1000)"
  "pow2 (- 1022) \<le> 1"
  using pow2_mono [of "- 1022" "- 1002"] pow2_mono [of "- 1022" "- 1000"]
    pow2_mono [of "- 1022" 0]
  by (simp_all add: pow2_def)

lemma angle_close:
  assumes "1 \<le> i" and "i < n" and "n \<le> 2 ^ 1000"
  shows "\<bar>angle n i - of_nat i * 360 / of_nat n\<bar> \<le> (of_nat i * 360 / of_nat n) / 2 ^ 51"
proof -
  define I :: rat where "I = of_nat i"
  define D :: rat where "D = 360 / of_nat n"
  define km :: rat where "km = 1 - 1 / 2 ^ 53"
  define kp :: rat where "kp = 1 + 1 / 2 ^ 53"
  define a where "a = binary64 I"
  define d where "d = binary64 D"
  define r where "r = binary64 (a * d)"
  have k: "0 \<le> km" "0 \<le> kp" "1 / 2 \<le> km"
    by (simp_all add: km_def kp_def)
  have I1: "1 \<le> I"
    using assms(1) by (simp add: I_def)
  have npos: "(0 :: rat) < of_nat n"
    using assms(2) by simp
  have "(of_nat n :: rat) \<le> of_nat (2 ^ 1000)"
    using assms(3) by (simp only: of_nat_le_iff)
  also have "\<dots> = pow2 1000"
    by (simp add: pow2_def)
  finally have nle: "of_nat n \<le> pow2 1000" .
  have "pow2 (- 1000) * of_nat n \<le> pow2 (- 1000) * pow2 1000"
    using nle pow2_pos [of "- 1000"] by simp
  also have "\<dots> = 1"
    using pow2_add [of "- 1000" 1000] by (simp add: pow2_def)
  finally have "pow2 (- 1000) \<le> 1 / of_nat n"
    using npos by (simp add: pos_le_divide_eq)
  also have "\<dots> \<le> D"
    using npos by (simp add: D_def divide_right_mono)
  finally have Dlow: "pow2 (- 1000) \<le> D" .
  then have Dpos: "0 < D"
    using pow2_pos [of "- 1000"] by linarith
  have a: "I * km \<le> a" "a \<le> I * kp"
    using binary64_interval [of I] I1 pow2_small(3) by (simp_all add: a_def km_def kp_def)
  have d: "D * km \<le> d" "d \<le> D * kp"
    using binary64_interval [of D] Dlow pow2_small(2) by (simp_all add: d_def km_def kp_def)
  have Ikm: "0 \<le> I * km" and Dkm: "0 \<le> D * km"
    using I1 Dpos k by simp_all
  have a0: "0 \<le> a" and d0: "0 \<le> d"
    using a(1) d(1) Ikm Dkm by linarith+
  have Plo: "(I * km) * (D * km) \<le> a * d"
    using a(1) d(1) a0 Dkm by (rule mult_mono)
  have Phi: "a * d \<le> (I * kp) * (D * kp)"
    using a(2) d(2) _ d0 by (rule mult_mono) (use I1 k in simp)
  have "pow2 (- 1002) = pow2 (- 1000) * (1 / 2 * (1 / 2))"
    using pow2_add [of "- 1000" "- 2"] by (simp add: pow2_def)
  also have "\<dots> \<le> D * (km * km)"
    using Dlow k pow2_pos [of "- 1000"] by (intro mult_mono) simp_all
  also have "\<dots> = 1 * km * (D * km)"
    by simp
  also have "\<dots> \<le> (I * km) * (D * km)"
    using I1 k Dkm by (intro mult_right_mono) simp_all
  finally have "pow2 (- 1022) \<le> a * d"
    using Plo pow2_small(1) by linarith
  from binary64_interval [OF this] have r: "a * d * km \<le> r" "r \<le> a * d * kp"
    by (simp_all add: r_def km_def kp_def)
  have E: "0 \<le> I * D"
    using I1 Dpos by simp
  have "I * D * (km * km * km) = (I * km) * (D * km) * km"
    by simp
  also have "\<dots> \<le> a * d * km"
    using Plo k by (intro mult_right_mono) simp_all
  finally have lo: "I * D * (km * km * km) \<le> r"
    using r(1) by linarith
  have "a * d * kp \<le> (I * kp) * (D * kp) * kp"
    using Phi k by (intro mult_right_mono) simp_all
  also have "\<dots> = I * D * (kp * kp * kp)"
    by simp
  finally have hi: "r \<le> I * D * (kp * kp * kp)"
    using r(2) by linarith
  have k3: "1 - 1 / 2 ^ 51 \<le> km * km * km" "kp * kp * kp \<le> 1 + 1 / 2 ^ 51"
    by (simp_all add: km_def kp_def)
  have "I * D * (1 - 1 / 2 ^ 51) \<le> I * D * (km * km * km)"
    "I * D * (kp * kp * kp) \<le> I * D * (1 + 1 / 2 ^ 51)"
    by (rule mult_left_mono [OF k3(1) E], rule mult_left_mono [OF k3(2) E])
  with lo hi have "I * D * (1 - 1 / 2 ^ 51) \<le> r" "r \<le> I * D * (1 + 1 / 2 ^ 51)"
    by linarith+
  moreover have "I * D * (1 - 1 / 2 ^ 51) = I * D - I * D / 2 ^ 51"
    "I * D * (1 + 1 / 2 ^ 51) = I * D + I * D / 2 ^ 51"
    by (simp_all add: algebra_simps)
  ultimately have "\<bar>r - I * D\<bar> \<le> I * D / 2 ^ 51"
    by (simp only: abs_le_iff) linarith
  moreover have "r = angle n i"
    by (simp add: r_def a_def d_def angle_def I_def D_def)
  moreover have "I * D = of_nat i * 360 / of_nat n"
    by (simp add: I_def D_def)
  ultimately show ?thesis
    by simp
qed

subsection \<open>Merging identical frames\<close>







lemma encode_nonempty:
  "frames \<noteq> [] \<Longrightarrow>
   encode lib frames files =
     Image_save lib (frames ! 0) output_path (save_kwargs frames) files"
  by (cases frames) (simp_all add: encode_def)

lemma Image_save_error:
  "snd (Image_save lib im p ps files) = None \<or>
   snd (Image_save lib im p ps files) = Some EncoderError"
  by (simp add: Image_save_def split: written.split)

lemma paths_differ: "input_path \<noteq> output_path"
  by (simp add: input_path_def output_path_def)

lemma Image_save_other_path:
  "q \<noteq> p \<Longrightarrow> fst (Image_save lib im p ps files) q = files q"
  by (simp add: Image_save_def split: written.split)

lemma encode_other_path:
  "q \<noteq> output_path \<Longrightarrow> fst (encode lib frames files) q = files q"
  by (cases frames) (simp_all add: encode_def Image_save_other_path)

lemma animate_other_path:
  "q \<noteq> output_path \<Longrightarrow> fst (animate lib n files) q = files q"
proof -
  assume q: "q \<noteq> output_path"
  show ?thesis
  proof (cases "Image_open lib files input_path")
    case (Inl e)
    then show ?thesis by (simp add: animate_def)
  next
    case (Inr opened)
    let ?frames = "generate_frames lib (normalize lib opened) n"
    obtain files' r where enc: "encode lib ?frames files = (files', r)"
      by (cases "encode lib ?frames files")
    from encode_other_path [OF q, of lib ?frames files] enc have "files' q = files q"
      by simp
    with Inr enc show ?thesis
      by (cases r) (simp_all add: animate_def Let_def)
  qed
qed

subsection \<open>The small library instance\<close>


lemma toy_decode_disk: "decode toy [2, 1, 7, 9] = Some grey_logo"
  by (simp add: toy_def toy_decode_def grey_logo_def)

lemma toy_rotate_size:
  "width (Image_rotate toy im a r e) = width im \<and>
   height (Image_rotate toy im a r e) = height im"
  by (simp add: toy_def toy_rotate_def)

lemma toy_rotate_mode: "mode (Image_rotate toy im a r e) = mode im"
  by (simp add: toy_def toy_rotate_def)

lemma toy_rotate_zero: "Image_rotate toy im 0 r e = im"
  by (simp add: toy_def toy_rotate_def)















lemma disk_input: "disk input_path = Some [2, 1, 7, 9]"
  by (simp add: disk_def paths_differ)









section \<open>The specified behaviour\<close>

text \<open>
  C1. For every frame count \<open>n \<ge> 1\<close> the loop builds a list of exactly \<open>n\<close> frames, and
  frame 0 is the image it was given (the normalized logo, in the script), pixel for
  pixel. The angle of frame 0 is \<open>0 * (360 / n) = 0\<close>, negated still \<open>0\<close>; that a rotation
  by \<open>0\<close> returns the image unchanged is the library's part and is the hypothesis.
\<close>

theorem generate_frames_count_and_first:
  assumes "1 \<le> n"
    and "Image_rotate lib logo 0 BICUBIC False = logo"
  shows "length (generate_frames lib logo n) = n \<and> generate_frames lib logo n ! 0 = logo"
  using assms by (simp add: length_generate_frames nth_generate_frames angle_zero)

theorem generate_frames_count_and_first_witness:
  "1 \<le> num_frames \<and>
   Image_rotate toy (normalize toy grey_logo) 0 BICUBIC False = normalize toy grey_logo \<and>
   length (generate_frames toy (normalize toy grey_logo) num_frames) = num_frames \<and>
   generate_frames toy (normalize toy grey_logo) num_frames ! 0 = normalize toy grey_logo"
proof -
  have n: "1 \<le> num_frames"
    by (simp add: num_frames_def)
  have r: "Image_rotate toy (normalize toy grey_logo) 0 BICUBIC False = normalize toy grey_logo"
    by (rule toy_rotate_zero)
  from generate_frames_count_and_first [OF n r] n r show ?thesis
    by simp
qed

text \<open>
  C2, as stated, fails: the angle is computed in double precision, and for a frame count
  of 7 the angle of frame 3 is not \<open>3 * 360 / 7\<close> but the double next to it; for a frame
  count of 39 one more step does not reach 360.
\<close>

theorem frame_angle_counterexample:
  "angle 7 3 = 2714222989709897 / 17592186044416 \<and>
   angle 7 3 \<noteq> 3 * 360 / 7 \<and>
   generate_frames toy rgba_logo 7 ! 3 =
     Image_rotate toy rgba_logo (- (2714222989709897 / 17592186044416)) BICUBIC False \<and>
   angle 39 39 = 6333186975989759 / 17592186044416 \<and>
   angle 39 39 \<noteq> 360"
proof -
  have "generate_frames toy rgba_logo 7 ! 3 =
          Image_rotate toy rgba_logo (- angle 7 3) BICUBIC False"
    by (rule nth_generate_frames) simp
  then show ?thesis
    by (simp add: angle_7_3 angle_39_39)
qed

text \<open>
  C2, amended. For every index \<open>i < n\<close>, frame \<open>i\<close> is the rotation of the logo by minus
  the double that line 16 computes: the quotient \<open>360 / n\<close> rounded to a double, times
  \<open>i\<close>, rounded to a double. For a frame count up to \<open>2 ^ 1000\<close> that double differs
  from \<open>i * 360 / n\<close> by at most one part in \<open>2 ^ 51\<close> of it. For the configured count
  of 36 frames it is exactly \<open>j * 360 / 36\<close> for every index \<open>j\<close>, consecutive angles
  differ by exactly \<open>360 / 36\<close>, and one more step would reach the full turn of 360
  degrees. The statement holds for every library, so it fixes the angle the script
  passes and its sign.
\<close>

theorem frame_angles_in_doubles:
  assumes "i < n"
    and "j < num_frames"
  shows "generate_frames lib logo n ! i =
           Image_rotate lib logo
             (- binary64 (binary64 (of_nat i) * binary64 (360 / of_nat n))) BICUBIC False \<and>
         (n \<le> 2 ^ 1000 \<longrightarrow>
            \<bar>angle n i - of_nat i * 360 / of_nat n\<bar> \<le> (of_nat i * 360 / of_nat n) / 2 ^ 51) \<and>
         generate_frames lib logo num_frames ! j =
           Image_rotate lib logo (- (of_nat j * 360 / of_nat num_frames)) BICUBIC False \<and>
         angle num_frames j = of_nat j * 360 / of_nat num_frames \<and>
         angle num_frames (Suc j) - angle num_frames j = 360 / of_nat num_frames \<and>
         angle num_frames num_frames = 360"
proof -
  have general: "generate_frames lib logo n ! i =
      Image_rotate lib logo
        (- binary64 (binary64 (of_nat i) * binary64 (360 / of_nat n))) BICUBIC False"
    using nth_generate_frames [OF assms(1), of lib logo] by (simp add: angle_def)
  have close: "n \<le> 2 ^ 1000 \<longrightarrow>
      \<bar>angle n i - of_nat i * 360 / of_nat n\<bar> \<le> (of_nat i * 360 / of_nat n) / 2 ^ 51"
  proof (cases "i = 0")
    case True
    then show ?thesis
      by (simp add: angle_zero)
  next
    case False
    then have "1 \<le> i"
      by simp
    with assms(1) show ?thesis
      by (blast intro: angle_close)
  qed
  from assms(2) have j: "j \<le> 36" "Suc j \<le> 36"
    by (simp_all add: num_frames_def)
  have a: "angle num_frames j = of_nat j * 360 / of_nat num_frames"
    using angle_36 [OF j(1)] by (simp add: num_frames_def)
  have s: "angle num_frames (Suc j) - angle num_frames j = 360 / of_nat num_frames"
    using angle_36 [OF j(1)] angle_36 [OF j(2)] by (simp add: num_frames_def)
  have t: "angle num_frames num_frames = 360"
    using angle_36 [of 36] by (simp add: num_frames_def)
  have "generate_frames lib logo num_frames ! j =
          Image_rotate lib logo (- (of_nat j * 360 / of_nat num_frames)) BICUBIC False"
    using nth_generate_frames [OF assms(2), of lib logo] a by simp
  with general close a s t show ?thesis
    by blast
qed

theorem frame_angles_in_doubles_witness:
  "(3 :: nat) < 7 \<and> 7 < num_frames \<and>
   generate_frames toy rgba_logo 7 ! 3 =
     Image_rotate toy rgba_logo (- binary64 (binary64 3 * binary64 (360 / 7))) BICUBIC False \<and>
   (7 :: nat) \<le> 2 ^ 1000 \<and>
   \<bar>angle 7 3 - 3 * 360 / 7\<bar> \<le> (3 * 360 / 7) / 2 ^ 51 \<and>
   generate_frames toy rgba_logo num_frames ! 7 =
     Image_rotate toy rgba_logo (- 70) BICUBIC False \<and>
   angle num_frames 7 = 70 \<and>
   angle num_frames 8 - angle num_frames 7 = 10 \<and>
   angle num_frames num_frames = 360"
proof -
  have i: "(3 :: nat) < 7"
    by simp
  have j: "7 < num_frames"
    by (simp add: num_frames_def)
  from frame_angles_in_doubles [OF i j, of toy rgba_logo] i j show ?thesis
    by (simp add: num_frames_def)
qed




text \<open>
  C4. Every generated frame has the width and the height of the image the loop was given.
  The script passes \<^verbatim>\<open>expand=False\<close>; that a rotation without expansion keeps the size
  of the image is the library's part and is the hypothesis.
\<close>

theorem frames_keep_size:
  assumes "\<forall>a. width (Image_rotate lib logo a BICUBIC False) = width logo \<and>
               height (Image_rotate lib logo a BICUBIC False) = height logo"
  shows "\<forall>f \<in> set (generate_frames lib logo n). width f = width logo \<and> height f = height logo"
  using assms by (auto simp: generate_frames_map)

theorem frames_keep_size_witness:
  "(\<forall>a. width (Image_rotate toy rgba_logo a BICUBIC False) = width rgba_logo \<and>
        height (Image_rotate toy rgba_logo a BICUBIC False) = height rgba_logo) \<and>
   list_all (\<lambda>f. width f = 2 \<and> height f = 1) (generate_frames toy rgba_logo num_frames)"
proof -
  have h: "\<forall>a. width (Image_rotate toy rgba_logo a BICUBIC False) = width rgba_logo \<and>
               height (Image_rotate toy rgba_logo a BICUBIC False) = height rgba_logo"
    by (simp add: toy_rotate_size)
  from frames_keep_size [OF h, of num_frames] h show ?thesis
    by (simp add: rgba_logo_def list_all_iff)
qed

text \<open>
  C5. After normalization the image is in mode RGBA, and so is every frame generated
  from it. Whatever the library's conversion to RGBA leaves unchanged in the opened
  image (\<open>content\<close>, any observation of an image), normalization leaves unchanged: the
  script does nothing to the image but that one conversion. The library's part is the
  hypotheses: the conversion yields the mode asked for and keeps \<open>content\<close>, and a
  rotation keeps the mode.
\<close>

theorem normalize_gives_alpha:
  assumes "mode (Image_convert lib opened ''RGBA'') = ''RGBA''"
    and "content (Image_convert lib opened ''RGBA'') = content opened"
    and "\<forall>a. mode (Image_rotate lib (normalize lib opened) a BICUBIC False) =
             mode (normalize lib opened)"
  shows "mode (normalize lib opened) = ''RGBA'' \<and>
         content (normalize lib opened) = content opened \<and>
         (\<forall>f \<in> set (generate_frames lib (normalize lib opened) n). mode f = ''RGBA'')"
proof -
  have m: "mode (normalize lib opened) = ''RGBA''"
    using assms(1) by (simp add: normalize_def)
  have c: "content (normalize lib opened) = content opened"
    using assms(2) by (simp add: normalize_def)
  have "\<forall>f \<in> set (generate_frames lib (normalize lib opened) n). mode f = ''RGBA''"
    using assms(3) m by (auto simp: generate_frames_map)
  with m c show ?thesis
    by simp
qed

theorem normalize_gives_alpha_witness:
  "mode (Image_convert toy grey_logo ''RGBA'') = ''RGBA'' \<and>
   grey_content (Image_convert toy grey_logo ''RGBA'') = grey_content grey_logo \<and>
   (\<forall>a. mode (Image_rotate toy (normalize toy grey_logo) a BICUBIC False) =
        mode (normalize toy grey_logo)) \<and>
   mode grey_logo = ''L'' \<and>
   mode (normalize toy grey_logo) = ''RGBA'' \<and>
   grey_content (normalize toy grey_logo) = (2, 1, [[7], [9]]) \<and>
   list_all (\<lambda>f. mode f = ''RGBA'')
     (generate_frames toy (normalize toy grey_logo) num_frames)"
proof -
  have h1: "mode (Image_convert toy grey_logo ''RGBA'') = ''RGBA''"
    by (simp add: toy_def toy_convert_def)
  have h2: "grey_content (Image_convert toy grey_logo ''RGBA'') = grey_content grey_logo"
    by (simp add: toy_def toy_convert_def grey_content_def grey_logo_def)
  have h3: "\<forall>a. mode (Image_rotate toy (normalize toy grey_logo) a BICUBIC False) =
               mode (normalize toy grey_logo)"
    by (simp add: toy_rotate_mode)
  have g: "grey_content grey_logo = (2, 1, [[7], [9]])"
    by (simp add: grey_content_def grey_logo_def)
  have l: "mode grey_logo = ''L''"
    by (simp add: grey_logo_def)
  from normalize_gives_alpha [OF h1 h2 h3, of num_frames] h1 h2 h3 g l show ?thesis
    by (simp add: list_all_iff)
qed

text \<open>
  C6. Normalization of an image that is in mode RGBA already returns that image: the
  conversion is skipped.
\<close>

theorem normalize_idempotent:
  assumes "mode im = ''RGBA''"
  shows "normalize lib im = im"
  using assms by (simp add: normalize_def)

theorem normalize_idempotent_witness:
  "mode rgba_logo = ''RGBA'' \<and> normalize toy rgba_logo = rgba_logo"
proof -
  have h: "mode rgba_logo = ''RGBA''"
    by (simp add: rgba_logo_def)
  from normalize_idempotent [OF h, of toy] h show ?thesis
    by simp
qed

text \<open>
  C7. The list of frames is the list of the rotations of the one source image, one for
  each index in order, and every pass of the loop appends a rotation of that source
  image whatever frames were built before it: no frame is a rotation of another frame.
\<close>

theorem frames_rotate_the_source:
  "generate_frames lib logo n =
     map (\<lambda>i. Image_rotate lib logo (- angle n i) BICUBIC False) [0..<n] \<and>
   (\<forall>built i. loop_body lib logo n built i =
      built @ [Image_rotate lib logo (- angle n i) BICUBIC False])"
  by (simp add: generate_frames_map loop_body_def)

text \<open>
  C8. When the input file does not exist, or its contents are no image, the run ends
  with the read or decode error and the file system is what it was: nothing is written.
\<close>

theorem load_failure_writes_nothing:
  assumes "files input_path = None \<or> (\<exists>b. files input_path = Some b \<and> decode lib b = None)"
  shows "main lib files =
           (files, Inl (if files input_path = None then FileNotFoundError
                        else UnidentifiedImageError)) \<and>
         animate lib n files =
           (files, Inl (if files input_path = None then FileNotFoundError
                        else UnidentifiedImageError))"
  using assms by (auto simp: main_def animate_def Image_open_def)

theorem load_failure_writes_nothing_witness:
  "(Map.empty :: fs) input_path = None \<and>
   main toy Map.empty = (Map.empty, Inl FileNotFoundError) \<and>
   [input_path \<mapsto> [1]] input_path = Some [1] \<and>
   decode toy [1] = None \<and>
   main toy [input_path \<mapsto> [1]] = ([input_path \<mapsto> [1]], Inl UnidentifiedImageError)"
proof -
  have a: "(Map.empty :: fs) input_path = None \<or>
           (\<exists>b. (Map.empty :: fs) input_path = Some b \<and> decode toy b = None)"
    by simp
  have d: "decode toy [1] = None"
    by (simp add: toy_def toy_decode_def)
  then have b: "[input_path \<mapsto> [1]] input_path = None \<or>
           (\<exists>b. [input_path \<mapsto> [1]] input_path = Some b \<and> decode toy b = None)"
    by simp
  from load_failure_writes_nothing [where files = Map.empty and lib = toy and n = 0, OF a]
       load_failure_writes_nothing [where files = "[input_path \<mapsto> [1]]" and lib = toy and n = 0, OF b]
       d
  show ?thesis
    by simp
qed

text \<open>
  C9. For every frame count \<open>n \<ge> 1\<close> the list of frames is not empty: the encode step
  finds its first frame, passes the other \<open>n - 1\<close> frames as \<open>append_images\<close> and does
  not raise IndexError. For a frame count of 0 the list is empty, the encode step raises
  IndexError, and the run of a loadable logo ends with that error and the file system
  unchanged.
\<close>

theorem first_frame_defined:
  assumes "1 \<le> n"
    and "Image_open lib files input_path = Inr opened"
  shows "generate_frames lib logo n \<noteq> [] \<and>
         encode lib (generate_frames lib logo n) files =
           Image_save lib (generate_frames lib logo n ! 0) output_path
             (save_kwargs (generate_frames lib logo n)) files \<and>
         length (append_images (save_kwargs (generate_frames lib logo n))) = n - 1 \<and>
         snd (encode lib (generate_frames lib logo n) files) \<noteq> Some IndexError \<and>
         generate_frames lib logo 0 = [] \<and>
         encode lib (generate_frames lib logo 0) files = (files, Some IndexError) \<and>
         animate lib 0 files = (files, Inl IndexError)"
proof -
  let ?frames = "generate_frames lib logo n"
  have ne: "?frames \<noteq> []"
    using assms(1) length_generate_frames [of lib logo n] by auto
  have enc: "encode lib ?frames files =
               Image_save lib (?frames ! 0) output_path (save_kwargs ?frames) files"
    by (rule encode_nonempty [OF ne])
  have rest: "length (append_images (save_kwargs ?frames)) = n - 1"
    by (simp add: save_kwargs_def length_generate_frames)
  have no: "snd (encode lib ?frames files) \<noteq> Some IndexError"
    using Image_save_error [of lib "?frames ! 0" output_path "save_kwargs ?frames" files]
    by (auto simp: enc)
  have zero: "generate_frames lib logo' 0 = []" for logo'
    by (simp add: generate_frames_def)
  have e0: "encode lib [] files = (files, Some IndexError)"
    by (simp add: encode_def)
  have a0: "animate lib 0 files = (files, Inl IndexError)"
    using assms(2) by (simp add: animate_def Let_def zero e0)
  from ne enc rest no zero [of logo] e0 a0 show ?thesis
    by simp
qed

theorem first_frame_defined_witness:
  "1 \<le> num_frames \<and>
   Image_open toy disk input_path = Inr grey_logo \<and>
   generate_frames toy rgba_logo num_frames \<noteq> [] \<and>
   length (append_images (save_kwargs (generate_frames toy rgba_logo num_frames))) =
     num_frames - 1 \<and>
   snd (encode toy (generate_frames toy rgba_logo num_frames) disk) \<noteq> Some IndexError \<and>
   encode toy (generate_frames toy rgba_logo 0) disk = (disk, Some IndexError) \<and>
   animate toy 0 disk = (disk, Inl IndexError)"
proof -
  have n: "1 \<le> num_frames"
    by (simp add: num_frames_def)
  have l: "Image_open toy disk input_path = Inr grey_logo"
    using disk_input toy_decode_disk by (simp add: Image_open_def)
  from first_frame_defined [OF n l, of rgba_logo] n l show ?thesis
    by blast
qed

text \<open>
  C10. The output path is not the input path, and whatever the run does (a load error,
  an encoder failure or a finished animation, for any library and any frame count) the
  contents of the input file after the run are its contents before. The library
  routines of the model are functions on image values, so the opened image is never
  changed either.
\<close>

theorem input_file_never_modified:
  "input_path \<noteq> output_path \<and>
   fst (main lib files) input_path = files input_path \<and>
   fst (animate lib n files) input_path = files input_path"
  by (simp add: paths_differ main_def animate_other_path)

end
